theory Spec2Isabelle
  imports Complex_Main "HOL-Library.AList" "HOL-Library.Product_Lexorder"
begin

section \<open>Skeletal animation tracks (makehuman/shared/animation.py)\<close>

text \<open>
  Conventions of the embedding.
  \<^item> Python floats (\<open>frameRate\<close>, times, weights, matrix entries) are idealised as
    \<^typ>\<open>real\<close>: rounding, infinities and NaN are not represented. Every concrete
    input evaluated below is a dyadic rational on which the float operations of the
    source are exact.
  \<^item> A 4x4 pose matrix is a 4-tuple of rows, each a 4-tuple of entries, so the shape
    test of \<open>__init__\<close> (line 76) is discharged by the type.
  \<^item> Counts and indices of frames, bones and vertices are \<^typ>\<open>nat\<close>; the frame
    index computed from a time is an \<^typ>\<open>int\<close>, since it can be negative.
  \<^item> An exception is a value of \<open>error\<close>. A method that mutates its object returns
    the raised error (if any) together with the state the object has at that point.
\<close>

datatype error =
    RuntimeError
  | ZeroDivisionError
  | AttributeError
  | IndexError
  | ValueError

type_synonym vec4 = "real \<times> real \<times> real \<times> real"
type_synonym mat4 = "vec4 \<times> vec4 \<times> vec4 \<times> vec4"

subsection \<open>Python sequence slicing\<close>

text \<open>\<open>xs[a:b]\<close> for integer bounds: a negative bound counts from the end, and both
  bounds are clamped to the sequence.\<close>

definition slice_bound :: "nat \<Rightarrow> int \<Rightarrow> nat" where
  "slice_bound n i = (if i < 0 then nat (max 0 (int n + i)) else min (nat i) n)"

definition py_slice :: "'a list \<Rightarrow> int \<Rightarrow> int \<Rightarrow> 'a list" where
  "py_slice xs a b =
     (let lo = slice_bound (length xs) a; hi = slice_bound (length xs) b
      in take (hi - lo) (drop lo xs))"

subsection \<open>AnimationTrack\<close>

text \<open>The attributes of an \<open>AnimationTrack\<close> object. \<open>p_data\<close> and \<open>p_data_baked\<close> are
  the attributes \<open>_data\<close> and \<open>_data_baked\<close>. \<open>looping\<close> is the attribute that
  \<open>setLooping\<close> creates; it does not exist (\<open>None\<close>) on a new object.\<close>

record AnimationTrack =
  name :: string
  dataLen :: nat
  nFrames :: nat
  nBones :: nat
  p_data :: "mat4 list"
  frameRate :: real
  loop :: bool
  p_data_baked :: "mat4 list option"
  interpolationType :: nat
  looping :: "bool option"

text \<open>\<open>__init__\<close> (lines 54-89). \<open>self.dataLen/nFrames\<close> is Python 2 integer division,
  which raises on a zero divisor.\<close>

definition init :: "string \<Rightarrow> mat4 list \<Rightarrow> nat \<Rightarrow> real \<Rightarrow> error + AnimationTrack" where
  "init nm poseData nFrames' framerate =
     (if nFrames' = 0 then Inl ZeroDivisionError
      else
        let dataLen' = length poseData;
            nBones' = dataLen' div nFrames'
        in if nBones' * nFrames' \<noteq> dataLen' then Inl RuntimeError
           else Inr \<lparr> name = nm, dataLen = dataLen', nFrames = nFrames', nBones = nBones',
                      p_data = poseData, frameRate = framerate, loop = True,
                      p_data_baked = None, interpolationType = 0, looping = None \<rparr>)"

text \<open>What \<open>__init__\<close> establishes about the attributes, and every method keeps.\<close>

definition wf_track :: "AnimationTrack \<Rightarrow> bool" where
  "wf_track tr =
     (dataLen tr = length (p_data tr) \<and> nBones tr * nFrames tr = dataLen tr \<and> 0 < nFrames tr)"

text \<open>\<open>isBaked\<close> and the property \<open>data\<close> (lines 91-99).\<close>

definition isBaked :: "AnimationTrack \<Rightarrow> bool" where
  "isBaked tr = (p_data_baked tr \<noteq> None)"

definition data :: "AnimationTrack \<Rightarrow> mat4 list" where
  "data tr = (case p_data_baked tr of Some b \<Rightarrow> b | None \<Rightarrow> p_data tr)"

definition resetBaked :: "AnimationTrack \<Rightarrow> AnimationTrack" where
  "resetBaked tr = tr\<lparr>p_data_baked := None\<rparr>"

subsection \<open>Time to frame\<close>

text \<open>\<open>math.modf\<close>: the fractional and the integral part of a float, both with the sign
  of the argument (the integral part is rounded towards zero).\<close>

definition trunc :: "real \<Rightarrow> int" where
  "trunc x = (if 0 \<le> x then \<lfloor>x\<rfloor> else \<lceil>x\<rceil>)"

definition modf :: "real \<Rightarrow> real \<times> int" where
  "modf x = (x - of_int (trunc x), trunc x)"

text \<open>\<open>getFrameIndexAtTime\<close> (lines 153-172). The returned frame index is a float with
  an integral value; it is represented by that integer. Python's \<open>%\<close> takes the sign of
  the divisor, as \<open>mod\<close> on \<^typ>\<open>int\<close> does, and raises on a zero divisor.\<close>

definition getFrameIndexAtTime :: "AnimationTrack \<Rightarrow> real \<Rightarrow> error + (int \<times> real)" where
  "getFrameIndexAtTime tr time =
     (let (fraction, frameIdx) = modf (frameRate tr * time)
      in if loop tr then
           (if nFrames tr = 0 then Inl ZeroDivisionError
            else Inr (frameIdx mod int (nFrames tr), fraction))
         else if frameIdx \<ge> int (nFrames tr) then Inr (int (nFrames tr) - 1, 0)
         else Inr (frameIdx, fraction))"

text \<open>\<open>isLooping\<close>, \<open>setLooping\<close>, \<open>getPlaytime\<close> (lines 174-184).\<close>

definition isLooping :: "AnimationTrack \<Rightarrow> bool" where
  "isLooping tr = loop tr"

definition setLooping :: "bool \<Rightarrow> AnimationTrack \<Rightarrow> AnimationTrack" where
  "setLooping enabled tr = tr\<lparr>looping := Some enabled\<rparr>"

definition getPlaytime :: "AnimationTrack \<Rightarrow> error + real" where
  "getPlaytime tr =
     (if frameRate tr = 0 then Inl ZeroDivisionError
      else Inr (real (nFrames tr) / frameRate tr))"

subsection \<open>Sampling\<close>

text \<open>Arithmetic of numpy on 4x4 matrices: a matrix times a scalar, and the sum of two
  matrices, both entry by entry.\<close>

fun vscale :: "vec4 \<Rightarrow> real \<Rightarrow> vec4" where
  "vscale (a, b, c, d) s = (a * s, b * s, c * s, d * s)"

fun vadd :: "vec4 \<Rightarrow> vec4 \<Rightarrow> vec4" where
  "vadd (a, b, c, d) (a', b', c', d') = (a + a', b + b', c + c', d + d')"

fun mscale :: "mat4 \<Rightarrow> real \<Rightarrow> mat4" where
  "mscale (r0, r1, r2, r3) s = (vscale r0 s, vscale r1 s, vscale r2 s, vscale r3 s)"

fun madd :: "mat4 \<Rightarrow> mat4 \<Rightarrow> mat4" where
  "madd (r0, r1, r2, r3) (q0, q1, q2, q3) = (vadd r0 q0, vadd r1 q1, vadd r2 q2, vadd r3 q3)"

text \<open>A numpy array of matrices, as a method hands it out: a basic slice \<open>a[lo:hi]\<close> is a
  view that shares the storage of the buffer it was cut from, every other result is an
  array of its own. \<open>View buf lo hi\<close> is the slice \<open>[lo:hi]\<close> of the named buffer of the
  track.\<close>

datatype buffer = Primary | Baked

datatype ndarray = View buffer int int | Fresh "mat4 list"

definition buffer_of :: "AnimationTrack \<Rightarrow> buffer \<Rightarrow> mat4 list" where
  "buffer_of tr buf =
     (case buf of
        Primary \<Rightarrow> p_data tr
      | Baked \<Rightarrow> (case p_data_baked tr of Some b \<Rightarrow> b | None \<Rightarrow> []))"

definition served :: "AnimationTrack \<Rightarrow> buffer" where
  "served tr = (if isBaked tr then Baked else Primary)"

definition contents :: "AnimationTrack \<Rightarrow> ndarray \<Rightarrow> mat4 list" where
  "contents tr arr =
     (case arr of
        View buf lo hi \<Rightarrow> py_slice (buffer_of tr buf) lo hi
      | Fresh ms \<Rightarrow> ms)"

text \<open>\<open>A * (1-fraction) + B * fraction\<close> on two arrays of matrices (lines 143-144). numpy
  broadcasts an operand whose first axis has length 1 and raises when the lengths
  differ otherwise.\<close>

definition lerp :: "real \<Rightarrow> mat4 \<Rightarrow> mat4 \<Rightarrow> mat4" where
  "lerp fraction A B = madd (mscale A (1 - fraction)) (mscale B fraction)"

definition lerp_arrays :: "mat4 list \<Rightarrow> mat4 list \<Rightarrow> real \<Rightarrow> error + mat4 list" where
  "lerp_arrays As Bs fraction =
     (if length As = length Bs then Inr (map2 (lerp fraction) As Bs)
      else if length As = 1 then Inr (map (lerp fraction (hd As)) Bs)
      else if length Bs = 1 then Inr (map (\<lambda>A. lerp fraction A (hd Bs)) As)
      else Inl ValueError)"

text \<open>\<open>getAtTime\<close> (lines 128-147). The float frame index is used as the integer it
  denotes. With an interpolation type other than 0 and 1 the method falls off its end
  and returns \<open>None\<close>.\<close>

definition getAtTime :: "AnimationTrack \<Rightarrow> real \<Rightarrow> error + ndarray option" where
  "getAtTime tr time =
     (case getFrameIndexAtTime tr time of
        Inl e \<Rightarrow> Inl e
      | Inr (frameIdx, fraction) \<Rightarrow>
          if fraction = 0 \<or> interpolationType tr = 0 then
            (let idx = frameIdx * int (nBones tr)
             in Inr (Some (View (served tr) idx (idx + int (nBones tr)))))
          else if interpolationType tr = 1 then
            (if nFrames tr = 0 then Inl ZeroDivisionError
             else
               let idx1 = frameIdx * int (nBones tr);
                   idx2 = ((frameIdx + 1) mod int (nFrames tr)) * int (nBones tr)
               in case lerp_arrays (py_slice (data tr) idx1 (idx1 + int (nBones tr)))
                                   (py_slice (data tr) idx2 (idx2 + int (nBones tr)))
                                   fraction of
                    Inl e \<Rightarrow> Inl e
                  | Inr ms \<Rightarrow> Inr (Some (Fresh ms)))
          else Inr None)"

text \<open>What a caller reads in the result of \<open>getAtTime\<close>.\<close>

definition sampleAtTime :: "AnimationTrack \<Rightarrow> real \<Rightarrow> error + mat4 list option" where
  "sampleAtTime tr time =
     (case getAtTime tr time of
        Inl e \<Rightarrow> Inl e
      | Inr r \<Rightarrow> Inr (map_option (contents tr) r))"

text \<open>\<open>getAtFramePos\<close> (lines 149-151), for a frame number already made an integer.\<close>

definition getAtFramePos :: "AnimationTrack \<Rightarrow> int \<Rightarrow> ndarray" where
  "getAtFramePos tr frame =
     View (served tr) (frame * int (nBones tr)) ((frame + 1) * int (nBones tr))"

subsection \<open>Sparsify\<close>

text \<open>The loop of lines 195-199 over \<open>range(0, dataLen, nBones)\<close>.\<close>

fun sparsify_loop :: "nat list \<Rightarrow> nat \<Rightarrow> nat \<Rightarrow> nat \<Rightarrow> nat list \<Rightarrow> nat list" where
  "sparsify_loop [] count' dropFrames nB indxs = indxs"
| "sparsify_loop (frameI # rest) count' dropFrames nB indxs =
     sparsify_loop rest ((count' + 1) mod dropFrames) dropFrames nB
       (if count' = 0 then indxs @ [frameI ..< frameI + nB] else indxs)"

definition range_step :: "nat \<Rightarrow> nat \<Rightarrow> nat list" where
  "range_step stop step = map (\<lambda>k. k * step) [0 ..< (stop + step - 1) div step]"

text \<open>\<open>a[indxs]\<close> with a list of indices: a new array; an index beyond the array raises.\<close>

definition take_indices :: "'a list \<Rightarrow> nat list \<Rightarrow> error + 'a list" where
  "take_indices xs indxs =
     (if list_all (\<lambda>i. i < length xs) indxs then Inr (map (nth xs) indxs)
      else Inl IndexError)"

text \<open>The assignment \<open>self.data = ...\<close> (line 201). \<open>AnimationTrack\<close> derives from
  \<open>object\<close> and declares \<open>data\<close> as a property with a getter and no setter (lines
  91-96), so the assignment raises \<open>AttributeError\<close> and stores nothing.\<close>

definition set_data :: "AnimationTrack \<Rightarrow> mat4 list \<Rightarrow> error + AnimationTrack" where
  "set_data tr v = Inl AttributeError"

text \<open>\<open>sparsify\<close> (lines 186-204). \<open>int(...)\<close> rounds towards zero; the float division
  raises on a zero divisor, \<open>range\<close> on a zero step.\<close>

definition sparsify :: "AnimationTrack \<Rightarrow> real \<Rightarrow> error option \<times> AnimationTrack" where
  "sparsify tr newFrameRate =
     (if newFrameRate > frameRate tr then (Some RuntimeError, tr)
      else if newFrameRate = 0 then (Some ZeroDivisionError, tr)
      else
        let dropFrames = trunc (frameRate tr / newFrameRate)
        in if dropFrames \<le> 0 then (None, tr)
           else if nBones tr = 0 then (Some ValueError, tr)
           else
             let indxs = sparsify_loop (range_step (dataLen tr) (nBones tr)) 0
                           (nat dropFrames) (nBones tr) []
             in case take_indices (data tr) indxs of
                  Inl e \<Rightarrow> (Some e, tr)
                | Inr data' \<Rightarrow>
                    (case set_data tr data' of
                       Inl e \<Rightarrow> (Some e, tr)
                     | Inr tr1 \<Rightarrow>
                         let tr2 = tr1\<lparr>frameRate := newFrameRate\<rparr>;
                             tr3 = tr2\<lparr>dataLen := length (data tr2)\<rparr>;
                             tr4 = tr3\<lparr>nFrames := dataLen tr3 div nBones tr3\<rparr>
                         in (None, tr4)))"

subsection \<open>Baking\<close>

text \<open>Modelled from the spec: the skeleton collaborator (spec section 6), whose class is
  not part of this source file. It has an ordered list of bones (here their names), a
  current pose that \<open>getPose\<close> reads and \<open>setPose\<close> replaces, and for each bone a skin
  matrix \<open>matPoseVerts\<close> that is determined by the pose that is set; how it is
  determined is the parameter \<open>skin\<close>.\<close>

record Skeleton =
  boneNames :: "string list"
  pose :: "mat4 list"
  skin :: "mat4 list \<Rightarrow> nat \<Rightarrow> mat4"

definition getBones :: "Skeleton \<Rightarrow> string list" where
  "getBones skel = boneNames skel"

definition getPose :: "Skeleton \<Rightarrow> mat4 list" where
  "getPose skel = pose skel"

definition setPose :: "Skeleton \<Rightarrow> mat4 list \<Rightarrow> Skeleton" where
  "setPose skel p = skel\<lparr>pose := p\<rparr>"

definition matPoseVerts :: "Skeleton \<Rightarrow> nat \<Rightarrow> mat4" where
  "matPoseVerts skel b = skin skel (pose skel) b"

definition zero4 :: mat4 where
  "zero4 = ((0, 0, 0, 0), (0, 0, 0, 0), (0, 0, 0, 0), (0, 0, 0, 0))"

text \<open>The inner loop of \<open>bake\<close> (lines 121-123) for frame \<open>f_idx\<close>, over the bone indices
  still to do; \<open>baked\<close> is the array \<open>self._data_baked\<close>, written in place.\<close>

fun bake_bones :: "Skeleton \<Rightarrow> nat \<Rightarrow> nat \<Rightarrow> nat list \<Rightarrow> mat4 list \<Rightarrow> error option \<times> mat4 list" where
  "bake_bones skel nB f_idx [] baked = (None, baked)"
| "bake_bones skel nB f_idx (b_idx # rest) baked =
     (let idx = f_idx * nB + b_idx
      in if b_idx < length (getBones skel) \<and> idx < length baked
         then bake_bones skel nB f_idx rest (baked[idx := matPoseVerts skel b_idx])
         else (Some IndexError, baked))"

text \<open>The outer loop (lines 119-123) over the frame indices still to do. The pose
  handed to \<open>setPose\<close> is the slice \<open>self._data[f_idx:f_idx+self.nBones]\<close>.\<close>

fun bake_frames ::
  "nat list \<Rightarrow> AnimationTrack \<Rightarrow> Skeleton \<Rightarrow> mat4 list \<Rightarrow> error option \<times> mat4 list \<times> Skeleton" where
  "bake_frames [] tr skel baked = (None, baked, skel)"
| "bake_frames (f_idx # rest) tr skel baked =
     (let skel' = setPose skel (py_slice (p_data tr) (int f_idx) (int f_idx + int (nBones tr)))
      in case bake_bones skel' (nBones tr) f_idx [0 ..< nBones tr] baked of
           (Some e, baked') \<Rightarrow> (Some e, baked', skel')
         | (None, baked') \<Rightarrow> bake_frames rest tr skel' baked')"

text \<open>\<open>bake\<close> (lines 104-126): the raised error, if any, with the track and the skeleton
  as they are when the method ends. There is no handler around the loop: an error
  inside it leaves the last pose set.\<close>

definition bake :: "AnimationTrack \<Rightarrow> Skeleton \<Rightarrow> error option \<times> AnimationTrack \<times> Skeleton" where
  "bake tr skel =
     (if length (getBones skel) \<noteq> nBones tr then (Some RuntimeError, tr, skel)
      else
        let old_pose = getPose skel;
            baked0 = replicate (dataLen tr) zero4
        in case bake_frames [0 ..< nFrames tr] tr skel baked0 of
             (Some e, baked, skel') \<Rightarrow> (Some e, tr\<lparr>p_data_baked := Some baked\<rparr>, skel')
           | (None, baked, skel') \<Rightarrow>
               (None, tr\<lparr>p_data_baked := Some baked\<rparr>, setPose skel' old_pose))"

subsection \<open>AnimatedMesh: the pose state\<close>

text \<open>The attributes of an \<open>AnimatedMesh\<close> that \<open>getPoseState\<close> reads: the active track
  (\<open>__currentAnim\<close>, which the mesh shares with its registry of animations), the play
  time and the in-place flag.\<close>

record AnimatedMesh =
  currentAnim :: "AnimationTrack option"
  playTime :: real
  inPlace :: bool

text \<open>\<open>a.copy()\<close>: a new array with the contents of \<open>a\<close>.\<close>

definition ndarray_copy :: "AnimationTrack \<Rightarrow> ndarray \<Rightarrow> ndarray" where
  "ndarray_copy tr arr = Fresh (contents tr arr)"

text \<open>\<open>a[:,:3,3] = np.zeros((a.shape[0],3))\<close> (line 582): rows 0-2 of column 3 of every
  matrix of \<open>a\<close> become zero. Written to a view, the assignment changes the buffer the
  view was cut from.\<close>

fun zero_translation :: "mat4 \<Rightarrow> mat4" where
  "zero_translation ((a0, a1, a2, a3), (b0, b1, b2, b3), (c0, c1, c2, c3), r3) =
     ((a0, a1, a2, 0), (b0, b1, b2, 0), (c0, c1, c2, 0), r3)"

definition map_slice :: "('a \<Rightarrow> 'a) \<Rightarrow> 'a list \<Rightarrow> int \<Rightarrow> int \<Rightarrow> 'a list" where
  "map_slice g xs a b =
     (let lo = slice_bound (length xs) a; hi = slice_bound (length xs) b
      in if hi \<le> lo then xs
         else take lo xs @ map g (take (hi - lo) (drop lo xs)) @ drop hi xs)"

definition write_buffer ::
  "AnimationTrack \<Rightarrow> buffer \<Rightarrow> (mat4 list \<Rightarrow> mat4 list) \<Rightarrow> AnimationTrack" where
  "write_buffer tr buf g =
     (case buf of
        Primary \<Rightarrow> tr\<lparr>p_data := g (p_data tr)\<rparr>
      | Baked \<Rightarrow> tr\<lparr>p_data_baked := map_option g (p_data_baked tr)\<rparr>)"

definition assign_translation :: "ndarray \<Rightarrow> AnimationTrack \<Rightarrow> ndarray \<times> AnimationTrack" where
  "assign_translation arr tr =
     (case arr of
        Fresh ms \<Rightarrow> (Fresh (map zero_translation ms), tr)
      | View buf lo hi \<Rightarrow>
          (View buf lo hi, write_buffer tr buf (\<lambda>xs. map_slice zero_translation xs lo hi)))"

text \<open>\<open>getPoseState\<close> (lines 571-583): the result, and the mesh afterwards. A method
  called on \<open>None\<close> raises \<open>AttributeError\<close>.\<close>

definition getPoseState :: "AnimatedMesh \<Rightarrow> (error + ndarray option) \<times> AnimatedMesh" where
  "getPoseState am =
     (case currentAnim am of
        None \<Rightarrow> (Inl AttributeError, am)
      | Some tr \<Rightarrow>
          (case getAtTime tr (playTime am) of
             Inl e \<Rightarrow> (Inl e, am)
           | Inr poseState \<Rightarrow>
               if inPlace am then
                 (case poseState of
                    None \<Rightarrow> (Inl AttributeError, am)
                  | Some arr \<Rightarrow>
                      let (arr', tr') = assign_translation (ndarray_copy tr arr) tr
                      in (Inr (Some arr'), am\<lparr>currentAnim := Some tr'\<rparr>))
               else (Inr poseState, am)))"

text \<open>The translation column of a matrix: rows 0-2 of column 3.\<close>

fun translation :: "mat4 \<Rightarrow> real \<times> real \<times> real" where
  "translation ((a0, a1, a2, a3), (b0, b1, b2, b3), (c0, c1, c2, c3), r3) = (a3, b3, c3)"

subsection \<open>Compiling vertex weights\<close>

text \<open>The raw mapping \<open>vertBoneMapping\<close> is given by its \<open>items()\<close>: bone name, vertex
  indices and weights, in the order in which the dictionary is iterated (the source
  iterates it twice, in the same order). The dictionary \<open>_ws\<close> built from it, from
  vertex index to a list of \<open>(weight, bone index)\<close> pairs, is an association list in
  order of first insertion; Python leaves the iteration order of a dictionary open, and
  no vertex is affected by the order in which the others are treated.\<close>

type_synonym bone_mapping = "(string \<times> nat list \<times> real list) list"
type_synonym vertex_weights = "(nat \<times> (real \<times> nat) list) list"

text \<open>The compiled array: the number of \<open>(b_idx, wght)\<close> field pairs of its dtype, and
  for every vertex the values of these pairs, \<open>(b_idx1, wght1)\<close> first.\<close>

record CompiledWeights =
  slots :: nat
  recs :: "(nat \<times> real) list list"

text \<open>Lines 290-296: the vertex count when none is given. \<open>max\<close> of an empty sequence
  raises \<open>ValueError\<close>.\<close>

fun infer_loop :: "bone_mapping \<Rightarrow> nat \<Rightarrow> error + nat" where
  "infer_loop [] vertexCount = Inr vertexCount"
| "infer_loop ((bname, verts, weights) # rest) vertexCount =
     (if verts = [] then Inl ValueError
      else infer_loop rest (max (Max (set verts)) vertexCount))"

definition inferVertexCount :: "bone_mapping \<Rightarrow> error + nat" where
  "inferVertexCount vertBoneMapping =
     (case infer_loop vertBoneMapping 0 of
        Inl e \<Rightarrow> Inl e
      | Inr vertexCount \<Rightarrow> Inr (if vertexCount \<noteq> 0 then vertexCount + 1 else vertexCount))"

text \<open>Lines 298-318: the number of field pairs of the dtype chosen for \<open>nWeights\<close>.\<close>

definition dtype_slots :: "nat \<Rightarrow> nat" where
  "dtype_slots nWeights =
     (if nWeights = 3 then 3 else if nWeights = 4 then 4 else if nWeights = 17 then 17 else 1)"

text \<open>Line 322: the dictionary from bone name to bone index; of two bones with one name
  the later one stays.\<close>

definition b_lookup :: "string list \<Rightarrow> string \<Rightarrow> nat option" where
  "b_lookup names = map_of (rev (zip names [0 ..< length names]))"

text \<open>Lines 331-335: the index of the (last) entry of a vertex that is for bone
  \<open>b_idx\<close>; \<open>None\<close> stands for the initial \<open>-1\<close>.\<close>

fun find_d_idx :: "(real \<times> nat) list \<Rightarrow> nat \<Rightarrow> nat \<Rightarrow> nat option \<Rightarrow> nat option" where
  "find_d_idx [] idx b_idx d_idx = d_idx"
| "find_d_idx (e # es) idx b_idx d_idx =
     find_d_idx es (Suc idx) b_idx (if snd e = b_idx then Some idx else d_idx)"

text \<open>Lines 336-340: merge a weight into the entry of its bone, or append a new entry.\<close>

definition add_weight :: "(real \<times> nat) list \<Rightarrow> real \<Rightarrow> nat \<Rightarrow> (real \<times> nat) list" where
  "add_weight es wght b_idx =
     (case find_d_idx es 0 b_idx None of
        Some d \<Rightarrow> es[d := (fst (es ! d) + wght, b_idx)]
      | None \<Rightarrow> es @ [(wght, b_idx)])"

definition entries :: "vertex_weights \<Rightarrow> nat \<Rightarrow> (real \<times> nat) list" where
  "entries ws v_idx = (case map_of ws v_idx of None \<Rightarrow> [] | Some es \<Rightarrow> es)"

text \<open>Lines 327-340: the loop over \<open>zip(verts, weights)\<close> for one bone.\<close>

fun add_pairs :: "nat \<Rightarrow> (nat \<times> real) list \<Rightarrow> vertex_weights \<Rightarrow> vertex_weights" where
  "add_pairs b_idx [] ws = ws"
| "add_pairs b_idx ((v_idx, wght) # rest) ws =
     add_pairs b_idx rest (AList.update v_idx (add_weight (entries ws v_idx) wght b_idx) ws)"

text \<open>Lines 323-342: the loop over the bones; a name that the skeleton does not have is
  skipped (the \<open>KeyError\<close> is caught and logged).\<close>

fun accumulate :: "(string \<Rightarrow> nat option) \<Rightarrow> bone_mapping \<Rightarrow> vertex_weights \<Rightarrow> vertex_weights" where
  "accumulate lk [] ws = ws"
| "accumulate lk ((bname, verts, weights) # rest) ws =
     (case lk bname of
        None \<Rightarrow> accumulate lk rest ws
      | Some b_idx \<Rightarrow> accumulate lk rest (add_pairs b_idx (zip verts weights) ws))"

text \<open>\<open>sorted(..., reverse=True)\<close> on \<open>(weight, bone index)\<close> tuples, which Python
  compares lexicographically.\<close>

definition sorted_desc :: "(real \<times> nat) list \<Rightarrow> (real \<times> nat) list" where
  "sorted_desc es = rev (sort es)"

text \<open>Lines 344-354 for one vertex. Only a list longer than \<open>nWeights\<close> is cut and
  renormalised. (A sum of zero makes numpy produce NaN or infinity; the division of
  \<^typ>\<open>real\<close> yields 0 there, so nothing is stated about that case.)\<close>

definition finalize :: "nat \<Rightarrow> (real \<times> nat) list \<Rightarrow> (real \<times> nat) list" where
  "finalize nWeights es =
     (if length es > nWeights then
        (let top = take nWeights (sorted_desc es);
             total = sum_list (map fst top)
         in map (\<lambda>(w, b). (w / total, b)) top)
      else sorted_desc es)"

text \<open>Lines 357-359 for one vertex: entry \<open>i\<close> goes to the fields \<open>wght(i+1)\<close> and
  \<open>b_idx(i+1)\<close> of the record; a field that the dtype does not have raises.\<close>

fun write_rec :: "(real \<times> nat) list \<Rightarrow> nat \<Rightarrow> (nat \<times> real) list \<Rightarrow> error + (nat \<times> real) list" where
  "write_rec [] i r = Inr r"
| "write_rec ((w, bidx) # rest) i r =
     (if i < length r then write_rec rest (Suc i) (r[i := (bidx, w)]) else Inl ValueError)"

text \<open>Lines 356-359: \<open>compiled_vertweights[v_idx]\<close> raises \<open>IndexError\<close> for a vertex
  index beyond the array.\<close>

fun write_all :: "vertex_weights \<Rightarrow> (nat \<times> real) list list \<Rightarrow> error + (nat \<times> real) list list" where
  "write_all [] compiled = Inr compiled"
| "write_all ((v_idx, wghts) # rest) compiled =
     (if wghts = [] then write_all rest compiled
      else if length compiled \<le> v_idx then Inl IndexError
      else
        (case write_rec wghts 0 (compiled ! v_idx) of
           Inl e \<Rightarrow> Inl e
         | Inr r \<Rightarrow> write_all rest (compiled[v_idx := r])))"

text \<open>\<open>_compileVertexWeights\<close> (lines 286-361).\<close>

definition compileVertexWeights ::
  "bone_mapping \<Rightarrow> Skeleton \<Rightarrow> nat option \<Rightarrow> nat \<Rightarrow> error + CompiledWeights" where
  "compileVertexWeights vertBoneMapping skel vertexCount nWeights =
     (case (case vertexCount of
              None \<Rightarrow> inferVertexCount vertBoneMapping
            | Some n \<Rightarrow> Inr n) of
        Inl e \<Rightarrow> Inl e
      | Inr n \<Rightarrow>
          let compiled = replicate n (replicate (dtype_slots nWeights) (0, 0));
              ws = accumulate (b_lookup (getBones skel)) vertBoneMapping [];
              ws' = map (\<lambda>(v_idx, es). (v_idx, finalize nWeights es)) ws
          in case write_all ws' compiled of
               Inl e \<Rightarrow> Inl e
             | Inr compiled' \<Rightarrow> Inr \<lparr> slots = dtype_slots nWeights, recs = compiled' \<rparr>)"

text \<open>What the raw mapping assigns to a vertex through the bone names that the lookup
  resolves: the \<open>(weight, bone index)\<close> pairs, in the order of the mapping.\<close>

definition raw_pairs :: "(string \<Rightarrow> nat option) \<Rightarrow> bone_mapping \<Rightarrow> nat \<Rightarrow> (real \<times> nat) list" where
  "raw_pairs lk vertBoneMapping v_idx =
     concat (map (\<lambda>(bname, verts, weights).
                    case lk bname of
                      None \<Rightarrow> []
                    | Some b_idx \<Rightarrow>
                        map (\<lambda>(v, w). (w, b_idx)) (filter (\<lambda>(v, w). v = v_idx) (zip verts weights)))
                 vertBoneMapping)"

subsection \<open>Skinning\<close>

text \<open>A two-dimensional array of floats: the length of its second axis, and its rows.\<close>

record Array2 =
  ncols :: nat
  rows :: "real list list"

fun vec_list :: "vec4 \<Rightarrow> real list" where
  "vec_list (a, b, c, d) = [a, b, c, d]"

fun mat_rows :: "mat4 \<Rightarrow> real list list" where
  "mat_rows (r0, r1, r2, r3) = [vec_list r0, vec_list r1, vec_list r2, vec_list r3]"

text \<open>\<open>M[:3,:c]\<close>, a scalar times such a block, and the sum of two blocks.\<close>

definition block :: "nat \<Rightarrow> mat4 \<Rightarrow> real list list" where
  "block c M = map (take c) (take 3 (mat_rows M))"

definition block_scale :: "real \<Rightarrow> real list list \<Rightarrow> real list list" where
  "block_scale w A = map (map ((*) w)) A"

definition block_add :: "real list list \<Rightarrow> real list list \<Rightarrow> real list list" where
  "block_add A B = map2 (map2 (+)) A B"

text \<open>The accumulated matrix of one vertex (lines 683-713): the weighted blocks of the
  first \<open>used\<close> field pairs of its record, summed from left to right.\<close>

definition accum :: "nat \<Rightarrow> nat \<Rightarrow> mat4 list \<Rightarrow> (nat \<times> real) list \<Rightarrow> real list list" where
  "accum c used P r =
     (case map (\<lambda>(b, w). block_scale w (block c (P ! b))) (take used r) of
        [] \<Rightarrow> []
      | t # ts \<Rightarrow> foldl block_add t ts)"

text \<open>The product of line 722 for one vertex: a block times the coordinates.\<close>

definition block_apply :: "real list list \<Rightarrow> real list \<Rightarrow> real list" where
  "block_apply A x = map (\<lambda>row. sum_list (map2 (*) row x)) A"

text \<open>\<open>skinMesh\<close> (lines 655-722). Indexing the pose buffer with a bone index beyond it
  raises \<open>IndexError\<close>; a field that the dtype lacks raises. numpy would broadcast an
  axis of length 1 in the final product; the model takes arrays of equal length and at
  least \<open>c\<close> columns, and answers every other combination with the shape error.\<close>

definition skinMesh :: "Array2 \<Rightarrow> CompiledWeights \<Rightarrow> mat4 list \<Rightarrow> error + real list list" where
  "skinMesh coords W P =
     (let c = (if ncols coords = 4 then 4 else 3);
          used = (if slots W = 4 then 4 else if slots W = 1 then 1
                  else if slots W = 17 then 17 else 3)
      in if \<not> list_all (\<lambda>r. list_all (\<lambda>(b, w). b < length P) (take used r)) (recs W)
         then Inl IndexError
         else if slots W < used then Inl ValueError
         else if length (recs W) \<noteq> length (rows coords) \<or> ncols coords < c then Inl ValueError
         else Inr (map2 (\<lambda>r x. block_apply (accum c used P r) (take c x))
                     (recs W) (rows coords)))"

definition identity4 :: mat4 where
  "identity4 = ((1, 0, 0, 0), (0, 1, 0, 0), (0, 0, 1, 0), (0, 0, 0, 1))"

text \<open>The dictionary \<open>_ws\<close> when no vertex but vertex 0 has been seen.\<close>

definition zero_only :: "vertex_weights \<Rightarrow> bool" where
  "zero_only ws = (ws = [] \<or> (\<exists>es. es \<noteq> [] \<and> ws = [(0, es)]))"

subsection \<open>Sample inputs\<close>

text \<open>A scaling by \<open>k\<close> followed by a translation by \<open>(k, 2k, 3k)\<close>.\<close>

definition sample_mat :: "real \<Rightarrow> mat4" where
  "sample_mat k = ((k, 0, 0, k), (0, k, 0, 2 * k), (0, 0, k, 3 * k), (0, 0, 0, 1))"

text \<open>A track of three frames of one bone, at one frame per second.\<close>

definition track3 :: AnimationTrack where
  "track3 = \<lparr> name = ''walk'', dataLen = 3, nFrames = 3, nBones = 1,
              p_data = [sample_mat 1, sample_mat 2, sample_mat 3], frameRate = 1, loop = True,
              p_data_baked = None, interpolationType = 0, looping = None \<rparr>"

text \<open>A track of two frames of two bones, at 30 frames per second, and a skeleton of two
  bones whose skin matrices are the pose matrices themselves.\<close>

definition track22 :: AnimationTrack where
  "track22 = \<lparr> name = ''wave'', dataLen = 4, nFrames = 2, nBones = 2,
               p_data = [sample_mat 1, sample_mat 2, sample_mat 3, sample_mat 4], frameRate = 30, loop = True,
               p_data_baked = None, interpolationType = 0, looping = None \<rparr>"

definition skel2 :: Skeleton where
  "skel2 = \<lparr> boneNames = [''root'', ''spine''], pose = [sample_mat 1, sample_mat 1],
             skin = (\<lambda>p b. if b < length p then p ! b else zero4) \<rparr>"

text \<open>A skeleton of one bone, and a mesh that plays \<open>track3\<close> in place.\<close>

definition skel1 :: Skeleton where
  "skel1 = \<lparr> boneNames = [''root''], pose = [sample_mat 1],
             skin = (\<lambda>p b. if b < length p then p ! b else zero4) \<rparr>"

definition mesh3 :: AnimatedMesh where
  "mesh3 = \<lparr> currentAnim = Some track3, playTime = 5 / 2, inPlace = True \<rparr>"

text \<open>A raw mapping that gives vertex 0 the weight 1/2 on the bone \<open>root\<close>.\<close>

definition mapping0 :: bone_mapping where
  "mapping0 = [(''root'', [0], [1 / 2])]"

text \<open>Two vertices with homogeneous coordinates, and weights of capacity 4 for them.\<close>

definition coords2 :: Array2 where
  "coords2 = \<lparr> ncols = 4, rows = [[1, 2, 3, 1], [4, 5, 6, 1]] \<rparr>"

definition weights2 :: CompiledWeights where
  "weights2 = \<lparr> slots = 4,
                recs = [[(0, 1 / 2), (1, 1 / 2), (0, 0), (0, 0)],
                        [(1, 1), (0, 0), (0, 0), (0, 0)]] \<rparr>"

section \<open>Properties\<close>

subsection \<open>Looping flag\<close>

lemma setLooping_loop: "loop (setLooping b tr) = loop tr"
  by (simp add: setLooping_def)

lemma fold_setLooping_loop: "loop (fold setLooping bs tr) = loop tr"
  by (induction bs arbitrary: tr) (simp_all add: setLooping_loop)

lemma fold_setLooping_frame:
  "getFrameIndexAtTime (fold setLooping bs tr) t = getFrameIndexAtTime tr t"
proof (induction bs arbitrary: tr)
  case Nil
  show ?case by simp
next
  case (Cons b bs)
  have "getFrameIndexAtTime (setLooping b tr) t = getFrameIndexAtTime tr t"
    by (simp add: getFrameIndexAtTime_def setLooping_def split: prod.splits)
  with Cons show ?case by simp
qed

lemma init_loop: "init nm pd n fr = Inr tr \<Longrightarrow> loop tr"
  by (auto simp: init_def Let_def split: if_splits)

text \<open>
  C9. \<open>setLooping\<close> writes the attribute \<open>looping\<close>, which nothing reads. After any
  sequence of \<open>setLooping\<close> calls on a constructed track, the attribute \<open>loop\<close> is what
  it was, \<open>isLooping\<close> still answers \<open>True\<close>, and \<open>getFrameIndexAtTime\<close> computes what it
  computed before.
\<close>

theorem setLooping_has_no_effect:
  assumes "init nm poseData n fr = Inr tr"
  shows "loop (fold setLooping bs tr) = loop tr
       \<and> isLooping tr
       \<and> isLooping (fold setLooping bs tr)
       \<and> getFrameIndexAtTime (fold setLooping bs tr) t = getFrameIndexAtTime tr t"
  using init_loop [OF assms]
  by (simp add: isLooping_def fold_setLooping_loop fold_setLooping_frame)

lemma init_track3: "init ''walk'' [sample_mat 1, sample_mat 2, sample_mat 3] 3 1 = Inr track3"
  by (simp add: init_def track3_def)

theorem setLooping_has_no_effect_witness:
  "init ''walk'' [sample_mat 1, sample_mat 2, sample_mat 3] 3 1 = Inr track3
   \<and> loop (fold setLooping [False, True, False] track3) = loop track3
   \<and> isLooping track3
   \<and> isLooping (fold setLooping [False, True, False] track3)
   \<and> getFrameIndexAtTime (fold setLooping [False, True, False] track3) (5 / 2)
       = getFrameIndexAtTime track3 (5 / 2)"
  using setLooping_has_no_effect [OF init_track3, of "[False, True, False]" "5 / 2"] init_track3
  by simp

subsection \<open>Time to frame\<close>

lemma trunc_nonneg: "0 \<le> x \<Longrightarrow> trunc x = \<lfloor>x\<rfloor>"
  by (simp add: trunc_def)

lemma trunc_neg_half: "trunc (- (1 / 2)) = 0"
proof -
  have "\<lceil>- (1 / 2) :: real\<rceil> = 0" by (rule ceiling_unique) simp_all
  then show ?thesis by (simp add: trunc_def)
qed

text \<open>At a time that is not negative the method computes the floor and a fraction in
  \<open>[0, 1)\<close>, as its docstring says.\<close>

lemma getFrameIndexAtTime_nonneg:
  assumes "0 \<le> frameRate tr * t" "0 < nFrames tr"
  shows "getFrameIndexAtTime tr t =
           Inr (if loop tr then (\<lfloor>frameRate tr * t\<rfloor> mod int (nFrames tr), frac (frameRate tr * t))
                else if int (nFrames tr) \<le> \<lfloor>frameRate tr * t\<rfloor> then (int (nFrames tr) - 1, 0)
                else (\<lfloor>frameRate tr * t\<rfloor>, frac (frameRate tr * t)))"
  using assms by (simp add: getFrameIndexAtTime_def modf_def trunc_nonneg frac_def)

text \<open>
  C4. The claim gives the frame index as the floor of \<open>frameRate * t\<close> and a fraction in
  \<open>[0, 1)\<close>. \<open>math.modf\<close> rounds towards zero: on the looping three-frame track at one
  frame per second, the time \<open>-3/2\<close> yields frame 2 with fraction \<open>-1/2\<close>, where the floor
  \<open>-2\<close> reduced modulo 3 is frame 1 and the fraction to the next frame is \<open>1/2\<close>.
\<close>

theorem getFrameIndexAtTime_negative_time:
  "getFrameIndexAtTime track3 (- 3 / 2) = Inr (2, - 1 / 2)
   \<and> \<lfloor>frameRate track3 * (- 3 / 2)\<rfloor> mod int (nFrames track3) = 1
   \<and> frameRate track3 * (- 3 / 2) - of_int \<lfloor>frameRate track3 * (- 3 / 2)\<rfloor> = 1 / 2"
  by (simp add: getFrameIndexAtTime_def track3_def modf_def trunc_def)

subsection \<open>Sampling\<close>

lemma sampleAtTime_frame:
  "getFrameIndexAtTime tr t = getFrameIndexAtTime tr t' \<Longrightarrow> sampleAtTime tr t = sampleAtTime tr t'"
  by (simp add: sampleAtTime_def getAtTime_def)

text \<open>From a time that is not negative on, sampling a looping track is periodic.\<close>

lemma sampleAtTime_periodic_nonneg:
  assumes "loop tr" "0 < frameRate tr" "0 < nFrames tr" "0 \<le> t"
  shows "sampleAtTime tr (t + real (nFrames tr) / frameRate tr) = sampleAtTime tr t"
proof -
  let ?x = "frameRate tr * t"
  have x: "0 \<le> ?x" using assms by simp
  have shift: "frameRate tr * (t + real (nFrames tr) / frameRate tr) = ?x + of_int (int (nFrames tr))"
    using assms by (simp add: algebra_simps)
  have fl: "\<lfloor>?x + of_int (int (nFrames tr))\<rfloor> = \<lfloor>?x\<rfloor> + int (nFrames tr)"
    by simp
  have fr: "frac (?x + of_int (int (nFrames tr))) = frac ?x"
    unfolding frac_def fl by simp
  have "getFrameIndexAtTime tr (t + real (nFrames tr) / frameRate tr) = getFrameIndexAtTime tr t"
    using assms x
    by (simp add: getFrameIndexAtTime_nonneg shift fl fr del: of_int_of_nat_eq)
  then show ?thesis by (rule sampleAtTime_frame)
qed

text \<open>
  C6. The claim makes \<open>getAtTime\<close> periodic with period \<open>nFrames/frameRate\<close> on a looping
  track. On the three-frame track at one frame per second the time \<open>-1/2\<close> samples
  frame 0, and one period later the time \<open>5/2\<close> samples frame 2.
\<close>

theorem sampleAtTime_not_periodic:
  "loop track3
   \<and> sampleAtTime track3 (- 1 / 2) = Inr (Some [sample_mat 1])
   \<and> sampleAtTime track3 (- 1 / 2 + real (nFrames track3) / frameRate track3)
       = Inr (Some [sample_mat 3])"
proof -
  have a: "sampleAtTime track3 (- 1 / 2) = Inr (Some [sample_mat 1])"
    by (simp add: trunc_neg_half sampleAtTime_def getAtTime_def getFrameIndexAtTime_def
          track3_def modf_def contents_def served_def isBaked_def buffer_of_def
          py_slice_def slice_bound_def)
  have b: "sampleAtTime track3 (- 1 / 2 + real (nFrames track3) / frameRate track3)
             = Inr (Some [sample_mat 3])"
    by (simp add: sampleAtTime_def getAtTime_def getFrameIndexAtTime_def track3_def modf_def
          trunc_def contents_def served_def isBaked_def buffer_of_def py_slice_def
          slice_bound_def)
  from a b show ?thesis by (simp add: track3_def)
qed

subsection \<open>Sparsify\<close>

lemma sparsify_track22:
  "sparsify track22 15 = (Some AttributeError, track22)"
  by (simp add: sparsify_def Let_def set_data_def trunc_def track22_def take_indices_def
        range_step_def data_def upt_rec)

text \<open>
  C5. The claim has \<open>sparsify\<close> succeed for every valid ratio and update the track. The
  method raises instead whenever the drop factor is at least 1, and the track is left
  as it was: the assignment to the read-only property \<open>data\<close> fails (when nothing
  before it does).
\<close>

theorem sparsify_valid_ratio_raises:
  assumes "newFrameRate \<le> frameRate tr" "1 \<le> trunc (frameRate tr / newFrameRate)"
  shows "\<exists>e. sparsify tr newFrameRate = (Some e, tr)"
  using assms
  by (auto simp: sparsify_def Let_def set_data_def trunc_def split: if_splits sum.splits)

theorem sparsify_valid_ratio_raises_witness:
  "15 \<le> frameRate track22 \<and> 1 \<le> trunc (frameRate track22 / 15)
   \<and> (\<exists>e. sparsify track22 15 = (Some e, track22))"
proof -
  have a: "15 \<le> frameRate track22" by (simp add: track22_def)
  have b: "1 \<le> trunc (frameRate track22 / 15)" by (simp add: track22_def trunc_def)
  from a b sparsify_valid_ratio_raises [OF a b] show ?thesis by simp
qed

subsection \<open>Baking\<close>

lemma init_wf: "init nm pd n fr = Inr tr \<Longrightarrow> wf_track tr"
  by (auto simp: init_def wf_track_def Let_def split: if_splits)

lemma bake_bones_ok:
  "\<forall>b\<in>set bs. b < length (getBones skel) \<and> f * nB + b < length baked \<Longrightarrow>
   fst (bake_bones skel nB f bs baked) = None \<and>
   length (snd (bake_bones skel nB f bs baked)) = length baked"
  by (induction bs arbitrary: baked) (simp_all add: Let_def)

lemma frame_index_bound:
  fixes f b nB nF :: nat
  assumes "f < nF" "b < nB"
  shows "f * nB + b < nB * nF"
proof -
  have "f * nB + b < f * nB + nB" using assms by simp
  also have "\<dots> = (Suc f) * nB" by simp
  also have "\<dots> \<le> nF * nB" using assms by (intro mult_le_mono1) simp
  finally show ?thesis by (simp add: mult.commute)
qed

lemma getBones_setPose: "getBones (setPose skel p) = getBones skel"
  by (simp add: getBones_def setPose_def)

lemma bake_frames_ok:
  assumes "length (getBones skel) = nBones tr" "\<forall>f\<in>set fs. f < nFrames tr"
    "length baked = nBones tr * nFrames tr"
  shows "fst (bake_frames fs tr skel baked) = None
       \<and> length (fst (snd (bake_frames fs tr skel baked))) = length baked
       \<and> boneNames (snd (snd (bake_frames fs tr skel baked))) = boneNames skel
       \<and> skin (snd (snd (bake_frames fs tr skel baked))) = skin skel"
  using assms
proof (induction fs arbitrary: skel baked)
  case Nil
  show ?case by simp
next
  case (Cons f fs)
  let ?skel' = "setPose skel (py_slice (p_data tr) (int f) (int f + int (nBones tr)))"
  let ?r = "bake_bones ?skel' (nBones tr) f [0 ..< nBones tr] baked"
  have f: "f < nFrames tr" using Cons.prems by simp
  have "\<forall>b\<in>set [0 ..< nBones tr]. b < length (getBones ?skel') \<and> f * nBones tr + b < length baked"
    using Cons.prems f by (auto simp: getBones_setPose frame_index_bound)
  from bake_bones_ok [OF this]
  have ok: "fst ?r = None" and len: "length (snd ?r) = length baked" by simp_all
  obtain baked' where r: "?r = (None, baked')" using ok by (cases ?r) auto
  have len': "length baked' = nBones tr * nFrames tr" using len r Cons.prems by simp
  have IH: "fst (bake_frames fs tr ?skel' baked') = None
       \<and> length (fst (snd (bake_frames fs tr ?skel' baked'))) = length baked'
       \<and> boneNames (snd (snd (bake_frames fs tr ?skel' baked'))) = boneNames ?skel'
       \<and> skin (snd (snd (bake_frames fs tr ?skel' baked'))) = skin ?skel'"
    using Cons.prems len' by (intro Cons.IH) (simp_all add: getBones_setPose)
  show ?case using IH r len len' Cons.prems by (simp add: Let_def setPose_def)
qed

text \<open>
  C7. On a track that satisfies the invariant of \<open>__init__\<close>, \<open>bake\<close> raises exactly
  when the skeleton's bone count differs from \<open>nBones\<close>; the error is the
  \<open>RuntimeError\<close> of line 114, and the track (both buffers, \<open>nFrames\<close>, \<open>frameRate\<close>) and
  the skeleton with its pose are then what they were before the call.
\<close>

theorem bake_raises_iff_bone_count_differs:
  assumes "wf_track tr"
  shows "(fst (bake tr skel) \<noteq> None) = (length (getBones skel) \<noteq> nBones tr)
       \<and> (length (getBones skel) \<noteq> nBones tr \<longrightarrow> bake tr skel = (Some RuntimeError, tr, skel))"
proof (cases "length (getBones skel) = nBones tr")
  case False
  then show ?thesis by (simp add: bake_def)
next
  case True
  let ?r = "bake_frames [0 ..< nFrames tr] tr skel (replicate (dataLen tr) zero4)"
  have "fst ?r = None \<and> length (fst (snd ?r)) = length (replicate (dataLen tr) zero4)
       \<and> boneNames (snd (snd ?r)) = boneNames skel \<and> skin (snd (snd ?r)) = skin skel"
    using assms True by (intro bake_frames_ok) (simp_all add: wf_track_def)
  then obtain baked skel' where r: "?r = (None, baked, skel')"
    by (cases ?r) auto
  then show ?thesis using True by (simp add: bake_def Let_def)
qed

theorem bake_raises_iff_bone_count_differs_witness:
  "wf_track track22
   \<and> length (getBones skel2) = nBones track22 \<and> fst (bake track22 skel2) = None
   \<and> length (getBones skel1) \<noteq> nBones track22
   \<and> bake track22 skel1 = (Some RuntimeError, track22, skel1)"
proof -
  have w: "wf_track track22" by (simp add: wf_track_def track22_def)
  have a: "length (getBones skel2) = nBones track22"
    by (simp add: getBones_def skel2_def track22_def)
  have b: "length (getBones skel1) \<noteq> nBones track22"
    by (simp add: getBones_def skel1_def track22_def)
  from bake_raises_iff_bone_count_differs [OF w, of skel2] a
  have c: "fst (bake track22 skel2) = None" by simp
  from bake_raises_iff_bone_count_differs [OF w, of skel1] b
  have d: "bake track22 skel1 = (Some RuntimeError, track22, skel1)" by simp
  from w a b c d show ?thesis by simp
qed

text \<open>When \<open>bake\<close> returns, the skeleton is the one it was given: the pose is restored.\<close>

lemma bake_restores_pose:
  assumes "wf_track tr"
  shows "snd (snd (bake tr skel)) = skel"
proof (cases "length (getBones skel) = nBones tr")
  case False
  then show ?thesis by (simp add: bake_def)
next
  case True
  let ?r = "bake_frames [0 ..< nFrames tr] tr skel (replicate (dataLen tr) zero4)"
  have "fst ?r = None \<and> length (fst (snd ?r)) = length (replicate (dataLen tr) zero4)
       \<and> boneNames (snd (snd ?r)) = boneNames skel \<and> skin (snd (snd ?r)) = skin skel"
    using assms True by (intro bake_frames_ok) (simp_all add: wf_track_def)
  then obtain baked skel' where r: "?r = (None, baked, skel')"
    and s: "boneNames skel' = boneNames skel" "skin skel' = skin skel"
    by (cases ?r) auto
  have "setPose skel' (getPose skel) = skel"
    using s by (simp add: setPose_def getPose_def)
  then show ?thesis using True r by (simp add: bake_def Let_def)
qed

text \<open>
  C1. The claim has \<open>bake\<close> set the skeleton, at frame \<open>f\<close>, to the matrices
  \<open>f*nBones .. (f+1)*nBones-1\<close> of the primary buffer. The slice taken at line 120 is
  \<open>[f : f+nBones]\<close>. On the track of two frames of two bones, frame 1 sets the pose to
  matrices 1 and 2 of the buffer, where the frame's matrices are 2 and 3; with a
  skeleton whose skin matrices are its pose matrices, the baked buffer ends as
  matrices 0, 1, 1, 2 of the primary buffer.
\<close>

theorem bake_sets_shifted_slice:
  "bake track22 skel2
     = (None, track22\<lparr>p_data_baked := Some [sample_mat 1, sample_mat 2, sample_mat 2, sample_mat 3]\<rparr>,
        skel2)
   \<and> getPose (snd (snd (bake_frames [1] track22 skel2 (replicate 4 zero4))))
       = [sample_mat 2, sample_mat 3]
   \<and> py_slice (p_data track22) (1 * int (nBones track22)) ((1 + 1) * int (nBones track22))
       = [sample_mat 3, sample_mat 4]"
  by (simp add: bake_def track22_def skel2_def getBones_def getPose_def setPose_def
        matPoseVerts_def py_slice_def slice_bound_def upt_rec zero4_def Let_def
        eval_nat_numeral)

subsection \<open>Pose state in place\<close>

lemma zero_translation_translation: "translation (zero_translation m) = (0, 0, 0)"
  by (cases m rule: zero_translation.cases) simp

text \<open>
  C8. With \<open>animateInPlace\<close> enabled and an active track, \<open>getPoseState\<close> leaves the mesh,
  and with it both buffers of the active track, as they were, whether it returns or
  raises; every matrix of an array it returns has a zero translation column; and it
  does return an array of its own when the track does not interpolate and has a frame.
\<close>

theorem getPoseState_in_place:
  assumes "inPlace am" "currentAnim am = Some tr"
  shows "snd (getPoseState am) = am
       \<and> (\<forall>arr. fst (getPoseState am) = Inr (Some arr) \<longrightarrow>
             list_all (\<lambda>m. translation m = (0, 0, 0)) (contents tr arr))
       \<and> (interpolationType tr = 0 \<and> 0 < nFrames tr \<longrightarrow>
             (\<exists>ms. fst (getPoseState am) = Inr (Some (Fresh ms))))"
proof -
  have a: "snd (getPoseState am) = am"
    using assms
    by (auto simp: getPoseState_def assign_translation_def ndarray_copy_def
             split: sum.splits option.splits)
  have b: "\<forall>arr. fst (getPoseState am) = Inr (Some arr) \<longrightarrow>
             list_all (\<lambda>m. translation m = (0, 0, 0)) (contents tr arr)"
    using assms
    by (auto simp: getPoseState_def assign_translation_def ndarray_copy_def contents_def
                   list_all_iff zero_translation_translation
             split: sum.splits option.splits)
  have c: "interpolationType tr = 0 \<and> 0 < nFrames tr \<longrightarrow>
             (\<exists>ms. fst (getPoseState am) = Inr (Some (Fresh ms)))"
    using assms
    by (auto simp: getPoseState_def assign_translation_def ndarray_copy_def getAtTime_def
                   getFrameIndexAtTime_def Let_def
             split: sum.splits option.splits prod.splits)
  from a b c show ?thesis by blast
qed

lemma getPoseState_mesh3:
  "getPoseState mesh3
     = (Inr (Some (Fresh [((3, 0, 0, 0), (0, 3, 0, 0), (0, 0, 3, 0), (0, 0, 0, 1))])), mesh3)"
  by (simp add: getPoseState_def mesh3_def track3_def getAtTime_def getFrameIndexAtTime_def
        modf_def trunc_def ndarray_copy_def assign_translation_def contents_def served_def
        isBaked_def buffer_of_def py_slice_def slice_bound_def sample_mat_def)

theorem getPoseState_in_place_witness:
  "inPlace mesh3 \<and> currentAnim mesh3 = Some track3
   \<and> interpolationType track3 = 0 \<and> 0 < nFrames track3
   \<and> snd (getPoseState mesh3) = mesh3
   \<and> fst (getPoseState mesh3)
       = Inr (Some (Fresh [((3, 0, 0, 0), (0, 3, 0, 0), (0, 0, 3, 0), (0, 0, 0, 1))]))
   \<and> list_all (\<lambda>m. translation m = (0, 0, 0))
       (contents track3 (Fresh [((3, 0, 0, 0), (0, 3, 0, 0), (0, 0, 3, 0), (0, 0, 0, 1))]))"
proof -
  have a: "inPlace mesh3" by (simp add: mesh3_def)
  have b: "currentAnim mesh3 = Some track3" by (simp add: mesh3_def)
  have c: "interpolationType track3 = 0 \<and> 0 < nFrames track3" by (simp add: track3_def)
  from getPoseState_in_place [OF a b] a b c getPoseState_mesh3 show ?thesis by simp
qed

subsection \<open>Compiling vertex weights: the inferred vertex count\<close>

lemma infer_loop_max:
  "list_all (\<lambda>(b, verts, ws). verts \<noteq> []) m \<Longrightarrow>
   infer_loop m n = Inr (Max (insert n (\<Union>(b, verts, ws) \<in> set m. set verts)))"
proof (induction m arbitrary: n)
  case Nil
  show ?case by simp
next
  case (Cons x m)
  obtain b verts ws where x: "x = (b, verts, ws)" by (cases x)
  have ne: "verts \<noteq> []" and rest: "list_all (\<lambda>(b, verts, ws). verts \<noteq> []) m"
    using Cons.prems x by simp_all
  let ?S = "(\<Union>(b, verts, ws) \<in> set m. set verts)"
  have fin: "finite ?S" by auto
  have "infer_loop (x # m) n = Inr (Max (insert (max (Max (set verts)) n) ?S))"
    using Cons.IH [OF rest] x ne by simp
  also have "Max (insert (max (Max (set verts)) n) ?S) = Max (insert n (set verts \<union> ?S))"
  proof -
    have "Max (insert n (set verts \<union> ?S)) = Max (insert n ?S \<union> set verts)"
      by (simp add: Un_commute insert_commute Un_insert_left)
    also have "\<dots> = max (Max (insert n ?S)) (Max (set verts))"
      using fin ne by (intro Max_Un) simp_all
    also have "\<dots> = Max (insert (max (Max (set verts)) n) ?S)"
      using fin by (cases "?S = {}") (simp_all add: max.commute max.left_commute max.assoc)
    finally show ?thesis by simp
  qed
  finally show ?case using x by simp
qed

lemma find_d_idx_Nil_None: "find_d_idx es i b None = Some d \<Longrightarrow> es \<noteq> []"
  by (cases es) simp_all

lemma add_weight_nonempty: "add_weight es w b \<noteq> []"
  by (auto simp: add_weight_def split: option.splits dest: find_d_idx_Nil_None)

lemma add_pairs_zero:
  "list_all (\<lambda>(v, w). v = 0) pairs \<Longrightarrow> zero_only ws \<Longrightarrow>
   zero_only (add_pairs b pairs ws) \<and> (pairs \<noteq> [] \<or> ws \<noteq> [] \<longrightarrow> add_pairs b pairs ws \<noteq> [])"
proof (induction pairs arbitrary: ws)
  case Nil
  then show ?case by simp
next
  case (Cons p pairs)
  obtain w where p: "p = (0, w)" using Cons.prems(1) by (cases p) auto
  let ?ws' = "AList.update 0 (add_weight (entries ws 0) w b) ws"
  have "?ws' = [(0, add_weight (entries ws 0) w b)]"
    using Cons.prems(2) by (auto simp: zero_only_def)
  then have z: "zero_only ?ws'" and ne: "?ws' \<noteq> []"
    by (simp_all add: zero_only_def add_weight_nonempty)
  have rest: "list_all (\<lambda>(v, w). v = 0) pairs" using Cons.prems(1) by simp
  from Cons.IH [OF rest z] ne show ?case using p by simp
qed

lemma accumulate_zero:
  "\<forall>(bname, verts, weights) \<in> set m. set verts = {0} \<Longrightarrow> zero_only ws \<Longrightarrow>
   zero_only (accumulate lk m ws)
   \<and> (ws \<noteq> [] \<or> (\<exists>(bname, verts, weights) \<in> set m. lk bname \<noteq> None \<and> weights \<noteq> [])
        \<longrightarrow> accumulate lk m ws \<noteq> [])"
proof (induction m arbitrary: ws)
  case Nil
  then show ?case by simp
next
  case (Cons x m)
  obtain bname verts weights where x: "x = (bname, verts, weights)" by (cases x)
  have v0: "set verts = {0}"
    using Cons.prems(1) by (simp add: x)
  have rest: "\<forall>(bname, verts, weights) \<in> set m. set verts = {0}"
    using Cons.prems(1) by simp
  have ex: "(\<exists>(bname, verts, weights) \<in> set (x # m). lk bname \<noteq> None \<and> weights \<noteq> [])
            = ((lk bname \<noteq> None \<and> weights \<noteq> [])
               \<or> (\<exists>(bname, verts, weights) \<in> set m. lk bname \<noteq> None \<and> weights \<noteq> []))"
    by (simp add: x)
  show ?case
  proof (cases "lk bname")
    case None
    have acc: "accumulate lk (x # m) ws = accumulate lk m ws" by (simp add: x None)
    from Cons.IH [OF rest Cons.prems(2)] show ?thesis
      unfolding acc ex using None by simp
  next
    case (Some b)
    let ?pairs = "zip verts weights"
    have acc: "accumulate lk (x # m) ws = accumulate lk m (add_pairs b ?pairs ws)"
      by (simp add: x Some)
    have "fst p = 0" if "p \<in> set ?pairs" for p
    proof -
      obtain v w where p: "p = (v, w)" by (cases p)
      then have "v \<in> set verts" using that by (auto dest: set_zip_leftD)
      then show ?thesis using v0 p by simp
    qed
    then have all0: "list_all (\<lambda>(v, w). v = 0) ?pairs"
      unfolding list_all_iff by (simp add: case_prod_beta)
    have vne: "verts \<noteq> []" using v0 by (cases verts) simp_all
    have pne: "weights \<noteq> [] \<Longrightarrow> ?pairs \<noteq> []"
      using vne by (cases verts; cases weights) simp_all
    from add_pairs_zero [OF all0 Cons.prems(2), of b]
    have z: "zero_only (add_pairs b ?pairs ws)"
      and ne: "?pairs \<noteq> [] \<or> ws \<noteq> [] \<longrightarrow> add_pairs b ?pairs ws \<noteq> []" by simp_all
    from Cons.IH [OF rest z]
    have IH1: "zero_only (accumulate lk m (add_pairs b ?pairs ws))"
      and IH2: "add_pairs b ?pairs ws \<noteq> []
                \<or> (\<exists>(bname, verts, weights) \<in> set m. lk bname \<noteq> None \<and> weights \<noteq> [])
                \<longrightarrow> accumulate lk m (add_pairs b ?pairs ws) \<noteq> []"
      by simp_all
    show ?thesis
      unfolding acc ex using IH1 IH2 ne pne by blast
  qed
qed

lemma finalize_nonempty: "0 < n \<Longrightarrow> es \<noteq> [] \<Longrightarrow> finalize n es \<noteq> []"
proof -
  assume a: "0 < n" "es \<noteq> []"
  have "length (finalize n es) = min n (length es)"
    by (simp add: finalize_def sorted_desc_def Let_def)
  moreover have "0 < min n (length es)" using a by simp
  ultimately have "0 < length (finalize n es)" by simp
  then show ?thesis by auto
qed

text \<open>
  C10. Without an explicit \<open>vertexCount\<close> the count is inferred as the largest vertex
  index plus one only if that index is positive, and stays 0 otherwise. When every
  vertex index of the mapping is 0 and vertex 0 gets an entry (some bone name resolves
  and has a weight), the output array has length 0 and writing the record of vertex 0
  raises \<open>IndexError\<close>.
\<close>

theorem inferred_vertex_count:
  assumes "list_all (\<lambda>(bname, verts, weights). verts \<noteq> []) m"
  shows "inferVertexCount m
           = Inr (let mx = Max (insert 0 (\<Union>(bname, verts, weights) \<in> set m. set verts))
                  in if 0 < mx then mx + 1 else 0)
       \<and> ((\<forall>(bname, verts, weights) \<in> set m. set verts = {0})
            \<and> (\<exists>(bname, verts, weights) \<in> set m.
                  b_lookup (getBones skel) bname \<noteq> None \<and> weights \<noteq> [])
            \<and> 0 < nWeights
          \<longrightarrow> inferVertexCount m = Inr 0
              \<and> compileVertexWeights m skel None nWeights = Inl IndexError)"
proof -
  let ?S = "\<Union>(bname, verts, weights) \<in> set m. set verts"
  have inf: "inferVertexCount m = Inr (let mx = Max (insert 0 ?S) in if 0 < mx then mx + 1 else 0)"
    using infer_loop_max [OF assms, of 0] by (simp add: inferVertexCount_def Let_def)
  have "inferVertexCount m = Inr 0 \<and> compileVertexWeights m skel None nWeights = Inl IndexError"
    if z: "\<forall>(bname, verts, weights) \<in> set m. set verts = {0}"
      and r: "\<exists>(bname, verts, weights) \<in> set m. b_lookup (getBones skel) bname \<noteq> None \<and> weights \<noteq> []"
      and n: "0 < nWeights"
  proof -
    have "?S \<subseteq> {0}" using z by auto
    then have "insert 0 ?S = {0}" by auto
    then have "Max (insert 0 ?S) = 0" by (simp only: Max_singleton)
    then have i0: "inferVertexCount m = Inr 0" using inf by (simp add: Let_def)
    let ?ws = "accumulate (b_lookup (getBones skel)) m []"
    have "zero_only []" by (simp add: zero_only_def)
    from accumulate_zero [OF z this, of "b_lookup (getBones skel)"] r
    have "zero_only ?ws" "?ws \<noteq> []" by auto
    then obtain es where es: "es \<noteq> []" "?ws = [(0, es)]" by (auto simp: zero_only_def)
    have "finalize nWeights es \<noteq> []" using n es(1) by (rule finalize_nonempty)
    then have "compileVertexWeights m skel None nWeights = Inl IndexError"
      using i0 es(2) by (simp add: compileVertexWeights_def Let_def)
    with i0 show ?thesis by simp
  qed
  with inf show ?thesis by blast
qed

theorem inferred_vertex_count_witness:
  "list_all (\<lambda>(bname, verts, weights). verts \<noteq> []) mapping0
   \<and> inferVertexCount mapping0 = Inr 0
   \<and> compileVertexWeights mapping0 skel1 None 4 = Inl IndexError"
proof -
  have a: "list_all (\<lambda>(bname, verts, weights). verts \<noteq> []) mapping0"
    by (simp add: mapping0_def)
  have b: "(\<forall>(bname, verts, weights) \<in> set mapping0. set verts = {0})
            \<and> (\<exists>(bname, verts, weights) \<in> set mapping0.
                  b_lookup (getBones skel1) bname \<noteq> None \<and> weights \<noteq> [])
            \<and> 0 < (4::nat)"
    by (simp add: mapping0_def b_lookup_def getBones_def skel1_def)
  from inferred_vertex_count [OF a, of skel1 4] a b show ?thesis by blast
qed

subsection \<open>Skinning with identity poses\<close>

lemma row_scale_add:
  "map2 (+) (map ((*) w) r) (map ((*) w') r) = map ((*) (w + w')) (r :: real list)"
  by (induction r) (simp_all add: distrib_right)

lemma block_scale_add:
  "block_add (block_scale w A) (block_scale w' A) = block_scale (w + w') A"
  unfolding block_add_def block_scale_def
  by (induction A) (simp_all add: row_scale_add)

lemma foldl_block_add:
  "foldl block_add (block_scale s A) (map (\<lambda>(b, w). block_scale w A) r)
     = block_scale (s + sum_list (map snd r)) A"
proof (induction r arbitrary: s)
  case Nil
  show ?case by simp
next
  case (Cons p r)
  obtain b w where p: "p = (b, w)" by (cases p)
  show ?case using Cons.IH [of "s + w"] by (simp add: p block_scale_add add.assoc)
qed

lemma row_scale_one: "map ((*) 1) (r :: real list) = r"
  by (induction r) simp_all

lemma block_scale_one: "block_scale 1 A = A"
  unfolding block_scale_def by (induction A) (simp_all add: row_scale_one)

lemma accum_identity:
  assumes "r \<noteq> []" "list_all (\<lambda>(b, w). b < length P) r" "list_all (\<lambda>M. M = identity4) P"
  shows "accum c (length r) P r = block_scale (sum_list (map snd r)) (block c identity4)"
proof -
  have eq: "map (\<lambda>(b, w). block_scale w (block c (P ! b))) r
              = map (\<lambda>(b, w). block_scale w (block c identity4)) r"
  proof (rule map_cong [OF refl])
    fix p assume p: "p \<in> set r"
    obtain b w where bw: "p = (b, w)" by (cases p)
    have "b < length P" using assms(2) p bw by (auto simp: list_all_iff)
    then have "P ! b = identity4" using assms(3) by (simp add: list_all_length)
    then show "(case p of (b, w) \<Rightarrow> block_scale w (block c (P ! b)))
             = (case p of (b, w) \<Rightarrow> block_scale w (block c identity4))"
      by (simp add: bw)
  qed
  obtain p r' where r: "r = p # r'" using assms(1) by (cases r) auto
  obtain b w where p: "p = (b, w)" by (cases p)
  have "accum c (length r) P r
          = (case map (\<lambda>(b, w). block_scale w (block c identity4)) r of
               [] \<Rightarrow> [] | t # ts \<Rightarrow> foldl block_add t ts)"
    by (simp add: accum_def eq)
  also have "\<dots> = foldl block_add (block_scale w (block c identity4))
              (map (\<lambda>(b, w). block_scale w (block c identity4)) r')"
    by (simp add: r p)
  also have "\<dots> = block_scale (w + sum_list (map snd r')) (block c identity4)"
    by (rule foldl_block_add)
  finally show ?thesis by (simp add: r p)
qed

lemma block_apply_identity3:
  "length x = 3 \<Longrightarrow> block_apply (block 3 identity4) x = x"
  by (auto simp: block_apply_def block_def identity4_def eval_nat_numeral length_Suc_conv)

lemma block_apply_identity4:
  "length x = 4 \<Longrightarrow> block_apply (block 4 identity4) x = take 3 x"
  by (auto simp: block_apply_def block_def identity4_def eval_nat_numeral length_Suc_conv)

text \<open>
  C2. For coordinates with three or four columns and compiled weights of capacity 1, 3,
  4 or 17, one record per vertex, whose weights sum to 1 for every vertex and whose
  bone indices lie in the pose buffer, skinning with a pose buffer of identity matrices
  returns the first three components of every vertex's coordinates (in exact
  arithmetic).
\<close>

theorem skinMesh_identity_pose:
  assumes nc: "ncols coords = 3 \<or> ncols coords = 4"
      and rw: "list_all (\<lambda>x. length x = ncols coords) (rows coords)"
      and sl: "slots W = 1 \<or> slots W = 3 \<or> slots W = 4 \<or> slots W = 17"
      and rc: "list_all (\<lambda>r. length r = slots W \<and> sum_list (map snd r) = 1
                              \<and> list_all (\<lambda>(b, w). b < length P) r) (recs W)"
      and ln: "length (recs W) = length (rows coords)"
      and idp: "list_all (\<lambda>M. M = identity4) P"
  shows "skinMesh coords W P = Inr (map (take 3) (rows coords))"
proof -
  let ?c = "if ncols coords = 4 then 4 else (3::nat)"
  let ?used = "if slots W = 4 then 4 else if slots W = 1 then 1
               else if slots W = 17 then 17 else (3::nat)"
  have used: "?used = slots W" using sl by auto
  have g1: "list_all (\<lambda>r. list_all (\<lambda>(b, w). b < length P) (take (slots W) r)) (recs W)"
    using rc by (auto simp: list_all_iff)
  have g3: "\<not> ncols coords < ?c" using nc by auto
  have pt: "block_apply (accum ?c (slots W) P r) (take ?c x) = take 3 x"
    if r: "r \<in> set (recs W)" and x: "x \<in> set (rows coords)" for r x
  proof -
    have lr: "length r = slots W" and sm: "sum_list (map snd r) = 1"
      and inr: "list_all (\<lambda>(b, w). b < length P) r"
      using rc r by (auto simp: list_all_iff)
    have ne: "r \<noteq> []" using lr sl by auto
    have "accum ?c (slots W) P r = block ?c identity4"
      using accum_identity [OF ne inr idp, of ?c] lr sm by (simp add: block_scale_one)
    moreover have "length x = ncols coords" using rw x by (auto simp: list_all_iff)
    ultimately show ?thesis
      using nc by (auto simp: block_apply_identity3 block_apply_identity4)
  qed
  have "map2 (\<lambda>r x. block_apply (accum ?c (slots W) P r) (take ?c x)) (recs W) (rows coords)
          = map (take 3) (rows coords)"
  proof (rule nth_equalityI)
    show "length (map2 (\<lambda>r x. block_apply (accum ?c (slots W) P r) (take ?c x))
                    (recs W) (rows coords)) = length (map (take 3) (rows coords))"
      using ln by simp
  next
    fix i
    assume "i < length (map2 (\<lambda>r x. block_apply (accum ?c (slots W) P r) (take ?c x))
                          (recs W) (rows coords))"
    then have i: "i < length (recs W)" "i < length (rows coords)" by simp_all
    then have "recs W ! i \<in> set (recs W)" "rows coords ! i \<in> set (rows coords)" by simp_all
    from pt [OF this] i
    show "map2 (\<lambda>r x. block_apply (accum ?c (slots W) P r) (take ?c x)) (recs W) (rows coords) ! i
            = map (take 3) (rows coords) ! i" by simp
  qed
  then show ?thesis
    using g1 g3 ln used unfolding skinMesh_def Let_def by simp
qed

theorem skinMesh_identity_pose_witness:
  "(ncols coords2 = 3 \<or> ncols coords2 = 4)
   \<and> list_all (\<lambda>x. length x = ncols coords2) (rows coords2)
   \<and> (slots weights2 = 1 \<or> slots weights2 = 3 \<or> slots weights2 = 4 \<or> slots weights2 = 17)
   \<and> list_all (\<lambda>r. length r = slots weights2 \<and> sum_list (map snd r) = 1
                      \<and> list_all (\<lambda>(b, w). b < length [identity4, identity4]) r)
         (recs weights2)
   \<and> length (recs weights2) = length (rows coords2)
   \<and> list_all (\<lambda>M. M = identity4) [identity4, identity4]
   \<and> skinMesh coords2 weights2 [identity4, identity4] = Inr [[1, 2, 3], [4, 5, 6]]"
proof -
  have a: "ncols coords2 = 3 \<or> ncols coords2 = 4" by (simp add: coords2_def)
  have b: "list_all (\<lambda>x. length x = ncols coords2) (rows coords2)" by (simp add: coords2_def)
  have c: "slots weights2 = 1 \<or> slots weights2 = 3 \<or> slots weights2 = 4 \<or> slots weights2 = 17"
    by (simp add: weights2_def)
  have d: "list_all (\<lambda>r. length r = slots weights2 \<and> sum_list (map snd r) = 1
                      \<and> list_all (\<lambda>(b, w). b < length [identity4, identity4]) r)
             (recs weights2)"
    by (simp add: weights2_def)
  have e: "length (recs weights2) = length (rows coords2)" by (simp add: weights2_def coords2_def)
  have f: "list_all (\<lambda>M. M = identity4) [identity4, identity4]" by simp
  have "skinMesh coords2 weights2 [identity4, identity4] = Inr (map (take 3) (rows coords2))"
    using a b c d e f by (rule skinMesh_identity_pose)
  then have g: "skinMesh coords2 weights2 [identity4, identity4] = Inr [[1, 2, 3], [4, 5, 6]]"
    by (simp add: coords2_def)
  from a b c d e f g show ?thesis by blast
qed

end
